theory Spec2Isabelle
  imports Main "HOL-Library.Word"
begin

section \<open>Data model of the cache\<close>

text \<open>
  Durations (\<open>time.Duration\<close>) and Unix timestamps in nanoseconds
  (\<open>time.Now().UnixNano()\<close>) are Go \<open>int64\<close> values: 64-bit words, compared as
  two's complement numbers (\<open><s\<close>), with addition that wraps around.  Go's
  \<open>int\<close> is taken at its 64-bit width.
\<close>

type_synonym int64 = "64 word"

definition NoExpiration :: int64 where
  "NoExpiration = - 1"

definition DefaultExpiration :: int64 where
  "DefaultExpiration = 0"

text \<open>
  A stored \<open>interface{}\<close> value.  The cache inspects the dynamic type only in
  \<open>Increment\<close>, whose type switch separates \<open>int\<close> from everything else.
\<close>

datatype object =
    NilObj
  | IntObj int64
  | Int64Obj int64
  | StringObj string
  | BoolObj bool

record Item =
  Object :: object
  Expiration :: int64

text \<open>\<open>Item.Expired\<close>, with the reading of the clock as an argument.\<close>

definition Expired :: "int64 \<Rightarrow> Item \<Rightarrow> bool" where
  "Expired now item =
     (if Expiration item = 0 then False else Expiration item <s now)"

text \<open>The \<open>janitor\<close> struct; its \<open>stop\<close> channel exists only inside \<open>Run\<close>.\<close>

record janitor =
  Interval :: int64

text \<open>
  The \<open>cache\<close> struct.  \<open>mu\<close> is \<open>True\<close> while the mutex is held.
  \<open>onEvicted\<close> is \<open>None\<close> for a nil func value; a callback acts on a state
  outside the cache, of type \<open>'w\<close>, which the record carries as \<open>world\<close> so that
  every invocation is visible in the result of an operation.  Besides the key
  and the value, a callback is given what it can observe of the cache at the
  moment of the call: the map and whether the mutex is held.  A callback that
  changes the cache is not modelled.
\<close>

record 'w cache =
  defaultExpiration :: int64
  items :: "string \<rightharpoonup> Item"
  mu :: bool
  onEvicted :: "(string \<Rightarrow> object \<Rightarrow> (string \<rightharpoonup> Item) \<Rightarrow> bool \<Rightarrow> 'w \<Rightarrow> 'w) option"
  janitor :: "janitor option"
  world :: 'w

text \<open>The pairs collected by \<open>DeleteExpired\<close> (struct \<open>kv\<close>).\<close>

record kv =
  key :: string
  val :: object

text \<open>
  The errors built with \<open>fmt.Errorf\<close>:
  \<open>KeyExists k\<close> is "Item:k has already exit" (Add),
  \<open>KeyNotFound k\<close> is "Item:k dosen't exit" (Replace),
  \<open>NotFoundOrExpired\<close> is "Item not found or expired" (Increment),
  \<open>UnsupportedType\<close> is "not support value tyepe" (Increment).
\<close>

datatype error =
    KeyExists string
  | KeyNotFound string
  | NotFoundOrExpired
  | UnsupportedType

text \<open>
  Ways in which a call does not return: \<open>Deadlock\<close> is \<open>Lock\<close> on a mutex that
  is held (in a sequential run nobody will release it), \<open>UnlockOfUnlocked\<close> the
  fatal error of \<open>Unlock\<close> on a free mutex, \<open>NilFuncCall\<close> the panic of calling
  a nil func value.
\<close>

datatype fault = Deadlock | UnlockOfUnlocked | NilFuncCall

definition andThen :: "fault + 'a \<Rightarrow> ('a \<Rightarrow> fault + 'b) \<Rightarrow> fault + 'b" where
  "andThen r f = (case r of Inl e \<Rightarrow> Inl e | Inr a \<Rightarrow> f a)"

definition Lock :: "'w cache \<Rightarrow> fault + 'w cache" where
  "Lock c = (if mu c then Inl Deadlock else Inr (c\<lparr>mu := True\<rparr>))"

definition Unlock :: "'w cache \<Rightarrow> fault + 'w cache" where
  "Unlock c = (if mu c then Inr (c\<lparr>mu := False\<rparr>) else Inl UnlockOfUnlocked)"

section \<open>Operations\<close>

text \<open>
  Every operation takes the readings of \<open>time.Now().UnixNano()\<close> it makes as
  arguments, in the order in which it makes them.
\<close>

text \<open>The expiration computed at the head of \<open>Set\<close> and \<open>set\<close>.\<close>

definition expiry :: "int64 \<Rightarrow> 'w cache \<Rightarrow> int64 \<Rightarrow> int64" where
  "expiry now c d =
     (let d1 = (if d = DefaultExpiration then defaultExpiration c else d)
      in if 0 <s d1 then now + d1 else 0)"

definition Set :: "int64 \<Rightarrow> 'w cache \<Rightarrow> string \<Rightarrow> object \<Rightarrow> int64 \<Rightarrow> fault + 'w cache" where
  "Set now c k x d =
     (let e = expiry now c d
      in andThen (Lock c) (\<lambda>c1.
           Unlock (c1\<lparr>items := (items c1)(k \<mapsto> \<lparr>Object = x, Expiration = e\<rparr>)\<rparr>)))"

text \<open>The unexported \<open>set\<close>, called with the mutex held.\<close>

definition set_c :: "int64 \<Rightarrow> 'w cache \<Rightarrow> string \<Rightarrow> object \<Rightarrow> int64 \<Rightarrow> 'w cache" where
  "set_c now c k x d =
     (let e = expiry now c d
      in c\<lparr>items := (items c)(k \<mapsto> \<lparr>Object = x, Expiration = e\<rparr>)\<rparr>)"

definition get :: "int64 \<Rightarrow> 'w cache \<Rightarrow> string \<Rightarrow> object \<times> bool" where
  "get now c k =
     (case items c k of
        None \<Rightarrow> (NilObj, False)
      | Some item \<Rightarrow>
          if 0 <s Expiration item \<and> Expiration item <s now then (NilObj, False)
          else (Object item, True))"

text \<open>
  \<open>Add\<close> reads the clock in \<open>get\<close> (\<open>t1\<close>) and in \<open>set\<close> (\<open>t2\<close>).  Its
  error branch returns without releasing the mutex.
\<close>

definition Add ::
  "int64 \<Rightarrow> int64 \<Rightarrow> 'w cache \<Rightarrow> string \<Rightarrow> object \<Rightarrow> int64 \<Rightarrow> fault + (error option \<times> 'w cache)" where
  "Add t1 t2 c k x d =
     andThen (Lock c) (\<lambda>c1.
       if snd (get t1 c1 k) then Inr (Some (KeyExists k), c1)
       else andThen (Unlock (set_c t2 c1 k x d)) (\<lambda>c2. Inr (None, c2)))"

definition Replace ::
  "int64 \<Rightarrow> int64 \<Rightarrow> 'w cache \<Rightarrow> string \<Rightarrow> object \<Rightarrow> int64 \<Rightarrow> fault + (error option \<times> 'w cache)" where
  "Replace t1 t2 c k x d =
     andThen (Lock c) (\<lambda>c1.
       if \<not> snd (get t1 c1 k)
       then andThen (Unlock c1) (\<lambda>c2. Inr (Some (KeyNotFound k), c2))
       else andThen (Unlock (set_c t2 c1 k x d)) (\<lambda>c2. Inr (None, c2)))"

definition Increment ::
  "int64 \<Rightarrow> 'w cache \<Rightarrow> string \<Rightarrow> int64 \<Rightarrow> fault + (error option \<times> 'w cache)" where
  "Increment now c k n =
     andThen (Lock c) (\<lambda>c1.
       case items c1 k of
         None \<Rightarrow> andThen (Unlock c1) (\<lambda>c2. Inr (Some NotFoundOrExpired, c2))
       | Some v \<Rightarrow>
           if Expired now v
           then andThen (Unlock c1) (\<lambda>c2. Inr (Some NotFoundOrExpired, c2))
           else
             (case Object v of
                IntObj i \<Rightarrow>
                  andThen (Unlock (c1\<lparr>items := (items c1)(k \<mapsto> v\<lparr>Object := IntObj (i + n)\<rparr>)\<rparr>))
                    (\<lambda>c2. Inr (None, c2))
              | _ \<Rightarrow> andThen (Unlock c1) (\<lambda>c2. Inr (Some UnsupportedType, c2))))"

definition Get :: "int64 \<Rightarrow> 'w cache \<Rightarrow> string \<Rightarrow> fault + ((object \<times> bool) \<times> 'w cache)" where
  "Get now c k =
     andThen (Lock c) (\<lambda>c1.
       case items c1 k of
         None \<Rightarrow> andThen (Unlock c1) (\<lambda>c2. Inr ((NilObj, False), c2))
       | Some item \<Rightarrow>
           if Expiration item <s now
           then andThen (Unlock c1) (\<lambda>c2. Inr ((NilObj, False), c2))
           else andThen (Unlock c1) (\<lambda>c2. Inr ((Object item, True), c2)))"

text \<open>The unexported \<open>delete\<close>: the value, whether to call back, the cache.\<close>

definition delete :: "'w cache \<Rightarrow> string \<Rightarrow> object \<times> bool \<times> 'w cache" where
  "delete c k =
     (let removed = c\<lparr>items := (items c)(k := None)\<rparr>
      in if onEvicted c \<noteq> None
         then (case items c k of
                 Some v \<Rightarrow> (Object v, True, removed)
               | None \<Rightarrow> (NilObj, False, removed))
         else (NilObj, False, removed))"

text \<open>The call \<open>c.onEvicted(k, v)\<close>.\<close>

definition call_onEvicted :: "'w cache \<Rightarrow> string \<Rightarrow> object \<Rightarrow> fault + 'w cache" where
  "call_onEvicted c k v =
     (case onEvicted c of
        None \<Rightarrow> Inl NilFuncCall
      | Some f \<Rightarrow> Inr (c\<lparr>world := f k v (items c) (mu c) (world c)\<rparr>))"

definition Delete :: "'w cache \<Rightarrow> string \<Rightarrow> fault + 'w cache" where
  "Delete c k =
     andThen (Lock c) (\<lambda>c1.
       case delete c1 k of (v, evicted, c2) \<Rightarrow>
         andThen (Unlock c2) (\<lambda>c3.
           if evicted then call_onEvicted c3 k v else Inr c3))"

text \<open>
  The first loop of \<open>DeleteExpired\<close>.  Go ranges over a map in an order it does
  not fix: \<open>ks\<close> is the order of this run.  A key that the map no longer holds is
  not produced by the range.
\<close>

fun sweep :: "int64 \<Rightarrow> string list \<Rightarrow> 'w cache \<Rightarrow> kv list \<Rightarrow> 'w cache \<times> kv list" where
  "sweep timeNow [] c evictedItems = (c, evictedItems)"
| "sweep timeNow (k # ks) c evictedItems =
     (case items c k of
        None \<Rightarrow> sweep timeNow ks c evictedItems
      | Some v \<Rightarrow>
          if 0 <s Expiration v \<and> Expiration v <s timeNow
          then (case delete c k of (x, evicted, c1) \<Rightarrow>
                  sweep timeNow ks c1
                    (if evicted then evictedItems @ [\<lparr>key = k, val = x\<rparr>] else evictedItems))
          else sweep timeNow ks c evictedItems)"

text \<open>The second loop: one call of the callback for each collected pair.\<close>

fun notify :: "kv list \<Rightarrow> 'w cache \<Rightarrow> fault + 'w cache" where
  "notify [] c = Inr c"
| "notify (v # vs) c = andThen (call_onEvicted c (key v) (val v)) (notify vs)"

definition DeleteExpired :: "int64 \<Rightarrow> string list \<Rightarrow> 'w cache \<Rightarrow> fault + 'w cache" where
  "DeleteExpired timeNow ks c =
     andThen (Lock c) (\<lambda>c1.
       case sweep timeNow ks c1 [] of (c2, evictedItems) \<Rightarrow>
         andThen (Unlock c2) (notify evictedItems))"

definition ItemCount :: "'w cache \<Rightarrow> fault + (nat \<times> 'w cache)" where
  "ItemCount c =
     andThen (Lock c) (\<lambda>c1.
       let n = card (dom (items c1))
       in andThen (Unlock c1) (\<lambda>c2. Inr (n, c2)))"

definition Flush :: "'w cache \<Rightarrow> fault + 'w cache" where
  "Flush c = andThen (Lock c) (\<lambda>c1. Unlock (c1\<lparr>items := Map.empty\<rparr>))"

section \<open>Construction\<close>

text \<open>
  \<open>runJanitor\<close> stores the janitor in the cache and starts \<open>j.Run(c)\<close> with a
  \<open>go\<close> statement: the second component lists the janitors whose \<open>Run\<close> was
  started.  The body of \<open>Run\<close> executes beside the caller and is not part of
  this sequential model.
\<close>

definition runJanitor :: "'w cache \<Rightarrow> int64 \<Rightarrow> 'w cache \<times> janitor list" where
  "runJanitor c ci =
     (let j = \<lparr>Interval = ci\<rparr>
      in (c\<lparr>janitor := Some j\<rparr>, [j]))"

text \<open>The composite literal leaves \<open>mu\<close>, \<open>onEvicted\<close> and \<open>janitor\<close> at their zero values.\<close>

definition newCache :: "int64 \<Rightarrow> (string \<rightharpoonup> Item) \<Rightarrow> 'w \<Rightarrow> 'w cache" where
  "newCache de m w =
     \<lparr>defaultExpiration = (if de = 0 then - 1 else de),
      items = m, mu = False, onEvicted = None, janitor = None, world = w\<rparr>"

definition newCacheWithJanitor ::
  "int64 \<Rightarrow> int64 \<Rightarrow> (string \<rightharpoonup> Item) \<Rightarrow> 'w \<Rightarrow> 'w cache \<times> janitor list" where
  "newCacheWithJanitor de cleanupInterval m w =
     (let c = newCache de m w
      in if 0 <s cleanupInterval then runJanitor c cleanupInterval else (c, []))"

definition New :: "int64 \<Rightarrow> int64 \<Rightarrow> 'w \<Rightarrow> 'w cache \<times> janitor list" where
  "New de cleanupInterval w = newCacheWithJanitor de cleanupInterval Map.empty w"

section \<open>The sweep as the specification describes it\<close>

text \<open>
  An entry is stale at \<open>timeNow\<close> when its expiration is positive and lies
  before \<open>timeNow\<close>.  \<open>survivors\<close> is the map without its stale entries;
  \<open>evictions\<close> lists, along an order of the keys, the stale keys with their
  values; \<open>to_kv\<close> packs such a pair as a \<open>kv\<close>.
\<close>

definition stale :: "int64 \<Rightarrow> Item \<Rightarrow> bool" where
  "stale timeNow v = (0 <s Expiration v \<and> Expiration v <s timeNow)"

definition survivors :: "int64 \<Rightarrow> (string \<rightharpoonup> Item) \<Rightarrow> (string \<rightharpoonup> Item)" where
  "survivors timeNow m =
     (\<lambda>k. case m k of None \<Rightarrow> None | Some v \<Rightarrow> if stale timeNow v then None else Some v)"

definition evictions :: "int64 \<Rightarrow> (string \<rightharpoonup> Item) \<Rightarrow> string list \<Rightarrow> (string \<times> object) list" where
  "evictions timeNow m ks =
     concat (map (\<lambda>k. case m k of
                         None \<Rightarrow> []
                       | Some v \<Rightarrow> if stale timeNow v then [(k, Object v)] else []) ks)"

definition to_kv :: "string \<times> object \<Rightarrow> kv" where
  "to_kv p = \<lparr>key = fst p, val = snd p\<rparr>"

section \<open>A sample state\<close>

text \<open>
  A callback that appends each call to a log (the key, the value, which of the
  keys foo, num and old the map holds at the call, and whether the mutex is
  held), and a cache that holds a never-expiring entry and two entries with
  deadlines 50 and 20.
\<close>

type_synonym call_log = "(string \<times> object \<times> string list \<times> bool) list"

definition record_call ::
  "string \<Rightarrow> object \<Rightarrow> (string \<rightharpoonup> Item) \<Rightarrow> bool \<Rightarrow> call_log \<Rightarrow> call_log" where
  "record_call k v m held w =
     w @ [(k, v, filter (\<lambda>j. m j \<noteq> None) [''foo'', ''num'', ''old''], held)]"

definition demo :: "call_log cache" where
  "demo =
     \<lparr>defaultExpiration = 600,
      items = [''foo'' \<mapsto> \<lparr>Object = StringObj ''bar'', Expiration = 0\<rparr>,
               ''num'' \<mapsto> \<lparr>Object = IntObj 10, Expiration = 50\<rparr>,
               ''old'' \<mapsto> \<lparr>Object = BoolObj True, Expiration = 20\<rparr>],
      mu = False, onEvicted = Some record_call, janitor = None, world = []\<rparr>"

section \<open>Basic facts\<close>

lemma Lock_free: "\<not> mu c \<Longrightarrow> Lock c = Inr (c\<lparr>mu := True\<rparr>)"
  by (simp add: Lock_def)

lemma Lock_held: "mu c \<Longrightarrow> Lock c = Inl Deadlock"
  by (simp add: Lock_def)

lemma Unlock_held: "mu c \<Longrightarrow> Unlock c = Inr (c\<lparr>mu := False\<rparr>)"
  by (simp add: Unlock_def)

lemma andThen_Inr: "andThen (Inr a) f = f a"
  by (simp add: andThen_def)

lemma andThen_Inl: "andThen (Inl e) f = Inl e"
  by (simp add: andThen_def)

lemmas run = Lock_free Unlock_held andThen_Inr andThen_Inl

lemma sint_add_in_range:
  fixes a b :: int64
  assumes "0 <s b" and "sint a + sint b < 2 ^ 63"
  shows "sint (a + b) = sint a + sint b"
proof -
  have "0 < sint b" using assms(1) by (simp add: word_sless_alt)
  moreover have "- (2 ^ 63) \<le> sint a" using sint_ge [of a] by simp
  ultimately have "- (2 ^ 63) \<le> sint a + sint b" by linarith
  then show ?thesis using assms(2)
    by (simp add: sint_word_ariths signed_take_bit_int_eq_self)
qed

lemma get_found:
  "snd (get t c k) = (\<exists>item. items c k = Some item \<and> \<not> (0 <s Expiration item \<and> Expiration item <s t))"
  by (auto simp add: get_def split: option.splits)

lemma get_locked: "get t (c\<lparr>mu := b\<rparr>) k = get t c k"
  by (simp add: get_def)

lemma set_c_unlock:
  "\<not> mu c \<Longrightarrow>
   Unlock (set_c t (c\<lparr>mu := True\<rparr>) k x d)
     = Inr (c\<lparr>items := (items c)(k \<mapsto> \<lparr>Object = x, Expiration = expiry t c d\<rparr>)\<rparr>)"
  by (cases c) (simp add: set_c_def expiry_def Unlock_def)

lemma sint_add_no_overflow:
  fixes a b :: int64
  assumes "- (2 ^ 63) \<le> sint a + sint b" and "sint a + sint b < 2 ^ 63"
  shows "sint (a + b) = sint a + sint b"
  using assms by (simp add: sint_word_ariths signed_take_bit_int_eq_self)

lemma demo_facts:
  "\<not> mu demo"
  "defaultExpiration demo = 600"
  "items demo ''foo'' = Some \<lparr>Object = StringObj ''bar'', Expiration = 0\<rparr>"
  "items demo ''num'' = Some \<lparr>Object = IntObj 10, Expiration = 50\<rparr>"
  "items demo ''old'' = Some \<lparr>Object = BoolObj True, Expiration = 20\<rparr>"
  "items demo ''new'' = None"
  by (simp_all add: demo_def)

lemma sless_numerals:
  "(0::int64) <s 5" "(0::int64) <s 50" "(0::int64) <s 20" "(20::int64) <s 30"
  "\<not> (50::int64) <s 30" "\<not> (0::int64) <s 0" "(0::int64) <s 600" "(0::int64) <s 30"
  by (simp_all add: word_sless_alt)

section \<open>Set: resolution of the expiration\<close>

text \<open>
  C2.  A call of \<open>Set\<close> that acquires the mutex stores the value under the key.
  With the default sentinel (0) the call behaves as with the cache's
  \<open>defaultExpiration\<close>; with a negative duration the stored expiration is 0,
  which means no expiration; with a positive duration \<open>d\<close> it is \<open>now + d\<close>
  in \<open>int64\<close> arithmetic, which is the sum of the two numbers whenever that
  sum is below \<open>2 ^ 63\<close>.  A cache built with a zero default expiration stores
  expiration 0 for the default sentinel.
\<close>

theorem Set_expiration:
  assumes "\<not> mu c"
  shows "Set now c k x DefaultExpiration = Set now c k x (defaultExpiration c)
       \<and> (d <s 0 \<longrightarrow>
            Set now c k x d = Inr (c\<lparr>items := (items c)(k \<mapsto> \<lparr>Object = x, Expiration = 0\<rparr>)\<rparr>))
       \<and> (0 <s d \<longrightarrow>
            Set now c k x d = Inr (c\<lparr>items := (items c)(k \<mapsto> \<lparr>Object = x, Expiration = now + d\<rparr>)\<rparr>)
            \<and> (sint now + sint d < 2 ^ 63 \<longrightarrow> sint (now + d) = sint now + sint d))
       \<and> Set now (newCache 0 m w) k x DefaultExpiration =
            Inr ((newCache 0 m w)\<lparr>items := m(k \<mapsto> \<lparr>Object = x, Expiration = 0\<rparr>)\<rparr>)"
proof -
  have neg: "d <s 0 \<Longrightarrow> \<not> 0 <s d \<and> d \<noteq> 0" for d :: int64
    by (auto simp add: word_sless_alt)
  have pos: "0 <s d \<Longrightarrow> d \<noteq> 0" for d :: int64
    by (auto simp add: word_sless_alt)
  have a: "Set now c k x DefaultExpiration = Set now c k x (defaultExpiration c)"
    by (simp add: Set_def expiry_def DefaultExpiration_def)
  have b: "Set now c k x d = Inr (c\<lparr>items := (items c)(k \<mapsto> \<lparr>Object = x, Expiration = 0\<rparr>)\<rparr>)"
    if "d <s 0"
    using assms neg [OF that]
    by (cases c) (simp add: Set_def expiry_def DefaultExpiration_def run)
  have c: "Set now c k x d = Inr (c\<lparr>items := (items c)(k \<mapsto> \<lparr>Object = x, Expiration = now + d\<rparr>)\<rparr>)"
    if "0 <s d"
    using assms that pos [OF that]
    by (cases c) (simp add: Set_def expiry_def DefaultExpiration_def run)
  have d: "Set now (newCache 0 m w) k x DefaultExpiration =
            Inr ((newCache 0 m w)\<lparr>items := m(k \<mapsto> \<lparr>Object = x, Expiration = 0\<rparr>)\<rparr>)"
    by (simp add: Set_def expiry_def DefaultExpiration_def newCache_def run word_sless_alt)
  show ?thesis using a b c d sint_add_in_range by blast
qed

theorem Set_expiration_witness:
  "Set 1000 (newCache 60 Map.empty ()) ''foo'' (StringObj ''bar'') DefaultExpiration
     = Inr ((newCache 60 Map.empty ())\<lparr>items := [''foo'' \<mapsto> \<lparr>Object = StringObj ''bar'', Expiration = 1060\<rparr>]\<rparr>)
   \<and> Set 1000 (newCache 60 Map.empty ()) ''foo'' (StringObj ''bar'') NoExpiration
     = Inr ((newCache 60 Map.empty ())\<lparr>items := [''foo'' \<mapsto> \<lparr>Object = StringObj ''bar'', Expiration = 0\<rparr>]\<rparr>)
   \<and> Set 1000 (newCache 60 Map.empty ()) ''foo'' (StringObj ''bar'') 5
     = Inr ((newCache 60 Map.empty ())\<lparr>items := [''foo'' \<mapsto> \<lparr>Object = StringObj ''bar'', Expiration = 1005\<rparr>]\<rparr>)
   \<and> Set 1000 (newCache 0 Map.empty ()) ''foo'' (StringObj ''bar'') DefaultExpiration
     = Inr ((newCache 0 Map.empty ())\<lparr>items := [''foo'' \<mapsto> \<lparr>Object = StringObj ''bar'', Expiration = 0\<rparr>]\<rparr>)"
proof -
  let ?c = "newCache 60 Map.empty () :: unit cache"
  have free: "\<not> mu ?c" by (simp add: newCache_def)
  have de: "defaultExpiration ?c = 60" "items ?c = Map.empty" by (simp_all add: newCache_def)
  have n: "NoExpiration <s (0::int64)" by (simp add: NoExpiration_def word_sless_alt)
  have p: "(0::int64) <s 5" by (simp add: word_sless_alt)
  have q: "(0::int64) <s 60" by (simp add: word_sless_alt)
  note t1 = Set_expiration [OF free, of 1000 "''foo''" "StringObj ''bar''" NoExpiration Map.empty "()"]
  note t2 = Set_expiration [OF free, of 1000 "''foo''" "StringObj ''bar''" 5 Map.empty "()"]
  note t3 = Set_expiration [OF free, of 1000 "''foo''" "StringObj ''bar''" 60 Map.empty "()"]
  have "Set 1000 ?c ''foo'' (StringObj ''bar'') NoExpiration
      = Inr (?c\<lparr>items := [''foo'' \<mapsto> \<lparr>Object = StringObj ''bar'', Expiration = 0\<rparr>]\<rparr>)"
    using t1 n de by simp
  moreover have "Set 1000 ?c ''foo'' (StringObj ''bar'') 5
      = Inr (?c\<lparr>items := [''foo'' \<mapsto> \<lparr>Object = StringObj ''bar'', Expiration = 1005\<rparr>]\<rparr>)"
    using t2 p de by simp
  moreover have "Set 1000 ?c ''foo'' (StringObj ''bar'') DefaultExpiration
      = Inr (?c\<lparr>items := [''foo'' \<mapsto> \<lparr>Object = StringObj ''bar'', Expiration = 1060\<rparr>]\<rparr>)"
    using t3 q de by simp
  moreover have "Set 1000 (newCache 0 Map.empty ()) ''foo'' (StringObj ''bar'') DefaultExpiration
     = Inr ((newCache 0 Map.empty ())\<lparr>items := [''foo'' \<mapsto> \<lparr>Object = StringObj ''bar'', Expiration = 0\<rparr>]\<rparr>)"
    using t1 by simp
  ultimately show ?thesis by simp
qed

section \<open>Delete and the eviction callback\<close>

text \<open>
  C6.  With a callback \<open>f\<close> configured, \<open>Delete\<close> of a key that holds an entry
  removes the entry and applies \<open>f\<close> once, to the key and the stored value,
  when the entry is gone from the map and the mutex is released;
  \<open>Delete\<close> of an absent key changes nothing and applies no callback.  Both
  calls return.
\<close>

theorem Delete_callback:
  assumes "\<not> mu c" and "onEvicted c = Some f"
  shows "(items c k = Some v \<longrightarrow>
            Delete c k = Inr (c\<lparr>items := (items c)(k := None),
                               world := f k (Object v) ((items c)(k := None)) False (world c)\<rparr>))
       \<and> (items c k = None \<longrightarrow> Delete c k = Inr c)"
  using assms by (cases c) (auto simp add: Delete_def delete_def call_onEvicted_def run)

theorem Delete_callback_witness:
  "Delete demo ''num''
     = Inr (demo\<lparr>items := [''foo'' \<mapsto> \<lparr>Object = StringObj ''bar'', Expiration = 0\<rparr>,
                           ''old'' \<mapsto> \<lparr>Object = BoolObj True, Expiration = 20\<rparr>],
                 world := [(''num'', IntObj 10, [''foo'', ''old''], False)]\<rparr>)
   \<and> Delete demo ''absent'' = Inr demo"
proof -
  have free: "\<not> mu demo" and cb: "onEvicted demo = Some record_call"
    and held: "items demo ''num'' = Some \<lparr>Object = IntObj 10, Expiration = 50\<rparr>"
    and absent: "items demo ''absent'' = None"
    by (simp_all add: demo_def)
  note t1 = Delete_callback [OF free cb, of "''num''" "\<lparr>Object = IntObj 10, Expiration = 50\<rparr>"]
  note t2 = Delete_callback [OF free cb, of "''absent''"]
  have "Delete demo ''absent'' = Inr demo" using t2 absent by simp
  moreover have "Delete demo ''num''
     = Inr (demo\<lparr>items := [''foo'' \<mapsto> \<lparr>Object = StringObj ''bar'', Expiration = 0\<rparr>,
                           ''old'' \<mapsto> \<lparr>Object = BoolObj True, Expiration = 20\<rparr>],
                 world := [(''num'', IntObj 10, [''foo'', ''old''], False)]\<rparr>)"
    using t1 held by (simp add: demo_def fun_upd_twist record_call_def)
  ultimately show ?thesis by simp
qed

text \<open>
  C10.  Without a callback (\<open>onEvicted\<close> nil), \<open>Delete\<close> of a key that holds an
  entry removes the entry and returns: \<open>delete\<close> reports no eviction, so the nil
  func value is not called and the state outside the cache is untouched.
\<close>

theorem Delete_nil_callback:
  assumes "\<not> mu c" and "onEvicted c = None" and "items c k = Some v"
  shows "Delete c k = Inr (c\<lparr>items := (items c)(k := None)\<rparr>)"
  using assms by (cases c) (simp add: Delete_def delete_def run)

theorem Delete_nil_callback_witness:
  "Delete (demo\<lparr>onEvicted := None\<rparr>) ''num''
     = Inr (demo\<lparr>onEvicted := None,
                 items := [''foo'' \<mapsto> \<lparr>Object = StringObj ''bar'', Expiration = 0\<rparr>,
                           ''old'' \<mapsto> \<lparr>Object = BoolObj True, Expiration = 20\<rparr>]\<rparr>)"
proof -
  let ?c = "demo\<lparr>onEvicted := None\<rparr>"
  have free: "\<not> mu ?c" and nil: "onEvicted ?c = None"
    and held: "items ?c ''num'' = Some \<lparr>Object = IntObj 10, Expiration = 50\<rparr>"
    by (simp_all add: demo_def)
  show ?thesis using Delete_nil_callback [OF free nil held]
    by (simp add: demo_def fun_upd_twist)
qed

section \<open>Flush\<close>

text \<open>
  C8.  \<open>Flush\<close> leaves a cache with no entries, whose \<open>ItemCount\<close> is 0, and
  applies no callback: the state outside the cache is unchanged, whatever the
  entries were.
\<close>

theorem Flush_removes_all:
  "\<not> mu c \<Longrightarrow>
     Flush c = Inr (c\<lparr>items := Map.empty\<rparr>)
     \<and> ItemCount (c\<lparr>items := Map.empty\<rparr>) = Inr (0, c\<lparr>items := Map.empty\<rparr>)
     \<and> world (c\<lparr>items := Map.empty\<rparr>) = world c"
  by (cases c) (simp add: Flush_def ItemCount_def run)

theorem Flush_removes_all_witness:
  "\<not> mu demo
   \<and> Flush demo = Inr (demo\<lparr>items := Map.empty\<rparr>)
   \<and> ItemCount (demo\<lparr>items := Map.empty\<rparr>) = Inr (0, demo\<lparr>items := Map.empty\<rparr>)
   \<and> world (demo\<lparr>items := Map.empty\<rparr>) = []"
proof -
  have free: "\<not> mu demo" by (simp add: demo_def)
  show ?thesis using free Flush_removes_all [OF free] by (simp add: demo_def)
qed

section \<open>Construction and the janitor\<close>

text \<open>
  C9.  \<open>New\<close> with a positive cleanup interval stores a janitor with that
  interval in the cache and starts its \<open>Run\<close>; with a zero or negative
  interval it starts nothing and the cache's janitor stays unset.
\<close>

theorem New_janitor:
  "(0 <s ci \<longrightarrow>
      New de ci w = ((newCache de Map.empty w)\<lparr>janitor := Some \<lparr>Interval = ci\<rparr>\<rparr>, [\<lparr>Interval = ci\<rparr>]))
   \<and> (\<not> 0 <s ci \<longrightarrow> New de ci w = (newCache de Map.empty w, []))
   \<and> janitor (newCache de Map.empty w) = None"
  by (simp add: New_def newCacheWithJanitor_def runJanitor_def newCache_def Let_def)

theorem New_janitor_witness:
  "janitor (fst (New 600 30 ())) = Some \<lparr>Interval = 30\<rparr>
   \<and> snd (New 600 30 ()) = [\<lparr>Interval = 30\<rparr>]
   \<and> janitor (fst (New 600 0 ())) = None \<and> snd (New 600 0 ()) = []
   \<and> janitor (fst (New 600 (- 5) ())) = None \<and> snd (New 600 (- 5) ()) = []"
proof -
  have p: "(0::int64) <s 30" and z: "\<not> (0::int64) <s 0" and n: "\<not> (0::int64) <s - 5"
    by (simp_all add: word_sless_alt)
  show ?thesis
    using New_janitor [of 30 600 "()"] New_janitor [of 0 600 "()"] New_janitor [of "- 5" 600 "()"] p z n
    by simp
qed

section \<open>Add, Replace and Increment\<close>

text \<open>
  Called with the mutex free, \<open>Add\<close> returns the \<open>KeyExists\<close> error exactly
  when the key holds an entry that is live for \<open>get\<close>: one whose expiration
  is not a positive time before the clock reading, so that expiration 0
  counts as live.  Otherwise (key absent, or entry expired) it stores the
  value with the expiration that \<open>Set\<close> would compute and returns no error.
\<close>

lemma Add_with_free_mutex:
  assumes "\<not> mu c"
  shows "((\<exists>item. items c k = Some item \<and> \<not> (0 <s Expiration item \<and> Expiration item <s t1))
            \<longrightarrow> Add t1 t2 c k x d = Inr (Some (KeyExists k), c\<lparr>mu := True\<rparr>))
       \<and> (\<not> (\<exists>item. items c k = Some item \<and> \<not> (0 <s Expiration item \<and> Expiration item <s t1))
            \<longrightarrow> Add t1 t2 c k x d
                  = Inr (None, c\<lparr>items := (items c)(k \<mapsto> \<lparr>Object = x, Expiration = expiry t2 c d\<rparr>)\<rparr>))
       \<and> expiry t2 c d = (if 0 <s d then t2 + d
                           else if d = 0 \<and> 0 <s defaultExpiration c then t2 + defaultExpiration c
                           else 0)"
proof -
  have e: "expiry t2 c d = (if 0 <s d then t2 + d
                           else if d = 0 \<and> 0 <s defaultExpiration c then t2 + defaultExpiration c
                           else 0)"
    by (auto simp add: expiry_def DefaultExpiration_def Let_def)
  show ?thesis
    using assms e by (simp add: Add_def run get_found get_locked set_c_unlock)
qed

lemma Add_with_free_mutex_demo:
  "Add 30 31 demo ''num'' (IntObj 1) 5 = Inr (Some (KeyExists ''num''), demo\<lparr>mu := True\<rparr>)
   \<and> Add 30 31 demo ''foo'' (IntObj 1) 5 = Inr (Some (KeyExists ''foo''), demo\<lparr>mu := True\<rparr>)
   \<and> Add 30 31 demo ''old'' (IntObj 1) 5
       = Inr (None, demo\<lparr>items := (items demo)(''old'' \<mapsto> \<lparr>Object = IntObj 1, Expiration = 36\<rparr>)\<rparr>)
   \<and> Add 30 31 demo ''new'' (IntObj 1) 0
       = Inr (None, demo\<lparr>items := (items demo)(''new'' \<mapsto> \<lparr>Object = IntObj 1, Expiration = 631\<rparr>)\<rparr>)"
proof -
  note t = Add_with_free_mutex [OF demo_facts(1), of _ 30 31 "IntObj 1"]
  have "Add 30 31 demo ''num'' (IntObj 1) 5 = Inr (Some (KeyExists ''num''), demo\<lparr>mu := True\<rparr>)"
    using t [of "''num''" 5] demo_facts sless_numerals by simp
  moreover have "Add 30 31 demo ''foo'' (IntObj 1) 5 = Inr (Some (KeyExists ''foo''), demo\<lparr>mu := True\<rparr>)"
    using t [of "''foo''" 5] demo_facts sless_numerals by simp
  moreover have "Add 30 31 demo ''old'' (IntObj 1) 5
       = Inr (None, demo\<lparr>items := (items demo)(''old'' \<mapsto> \<lparr>Object = IntObj 1, Expiration = 36\<rparr>)\<rparr>)"
    using t [of "''old''" 5] demo_facts sless_numerals by simp
  moreover have "Add 30 31 demo ''new'' (IntObj 1) 0
       = Inr (None, demo\<lparr>items := (items demo)(''new'' \<mapsto> \<lparr>Object = IntObj 1, Expiration = 631\<rparr>)\<rparr>)"
    using t [of "''new''" 0] demo_facts sless_numerals by simp
  ultimately show ?thesis by simp
qed

text \<open>
  The error branch of \<open>Add\<close> has no \<open>Unlock\<close>, where \<open>Replace\<close> has one:
  the cache it leaves holds the mutex, and the next operation on it in the
  same run waits for ever.
\<close>

lemma Add_leaves_mutex_held:
  assumes "Add t1 t2 c k x d = Inr (Some e, c1)"
  shows "mu c1 \<and> Get now c1 k1 = Inl Deadlock \<and> Set now c1 k1 y d1 = Inl Deadlock
       \<and> Add t3 t4 c1 k1 y d1 = Inl Deadlock"
  using assms
  by (auto simp add: Add_def Lock_def Unlock_def andThen_def Get_def Set_def
      split: if_splits sum.splits)

text \<open>
  C3 asks, for every cache state, that \<open>Add\<close> fails with \<open>KeyExists\<close> exactly
  when the key holds a live entry and inserts otherwise.  On a cache from
  \<open>New\<close>, a first \<open>Add\<close> of key k inserts it and a second one returns
  \<open>KeyExists\<close>, but leaves the mutex held.  In the state so reached, a third
  \<open>Add\<close> of the live key k does not return \<open>KeyExists\<close>, and \<open>Add\<close> of the
  absent key j does not insert: neither call returns.
\<close>

theorem Add_after_KeyExists_blocks:
  "Add 1000 1000 (fst (New 0 0 ())) ''k'' (IntObj 1) NoExpiration
     = Inr (None, (fst (New 0 0 ()))\<lparr>items := [''k'' \<mapsto> \<lparr>Object = IntObj 1, Expiration = 0\<rparr>]\<rparr>)
   \<and> Add 1001 1001
        ((fst (New 0 0 ()))\<lparr>items := [''k'' \<mapsto> \<lparr>Object = IntObj 1, Expiration = 0\<rparr>]\<rparr>)
        ''k'' (IntObj 2) NoExpiration
     = Inr (Some (KeyExists ''k''),
            (fst (New 0 0 ()))\<lparr>items := [''k'' \<mapsto> \<lparr>Object = IntObj 1, Expiration = 0\<rparr>],
                                mu := True\<rparr>)
   \<and> Add 1002 1002
        ((fst (New 0 0 ()))\<lparr>items := [''k'' \<mapsto> \<lparr>Object = IntObj 1, Expiration = 0\<rparr>],
                            mu := True\<rparr>)
        ''k'' (IntObj 3) NoExpiration
     = Inl Deadlock
   \<and> Add 1002 1002
        ((fst (New 0 0 ()))\<lparr>items := [''k'' \<mapsto> \<lparr>Object = IntObj 1, Expiration = 0\<rparr>],
                            mu := True\<rparr>)
        ''j'' (IntObj 3) NoExpiration
     = Inl Deadlock"
  by (simp add: Add_def get_def set_c_def expiry_def New_def newCacheWithJanitor_def
      newCache_def NoExpiration_def DefaultExpiration_def Lock_def Unlock_def andThen_def
      word_sless_alt)

text \<open>
  C4.  \<open>Replace\<close> returns the \<open>KeyNotFound\<close> error, and changes nothing,
  exactly when the key is absent or its entry has expired (a positive expiration
  before the clock reading).  On a live entry it stores the new value with
  the expiration computed from the duration, the one \<open>Set\<close> stores, and
  returns no error.
\<close>

theorem Replace_KeyNotFound:
  assumes "\<not> mu c"
  shows "((\<exists>item. items c k = Some item \<and> \<not> (0 <s Expiration item \<and> Expiration item <s t1))
            \<longrightarrow> Replace t1 t2 c k x d
                  = Inr (None, c\<lparr>items := (items c)(k \<mapsto> \<lparr>Object = x, Expiration = expiry t2 c d\<rparr>)\<rparr>))
       \<and> (\<not> (\<exists>item. items c k = Some item \<and> \<not> (0 <s Expiration item \<and> Expiration item <s t1))
            \<longrightarrow> Replace t1 t2 c k x d = Inr (Some (KeyNotFound k), c))
       \<and> Set t2 c k x d
            = Inr (c\<lparr>items := (items c)(k \<mapsto> \<lparr>Object = x, Expiration = expiry t2 c d\<rparr>)\<rparr>)"
proof -
  have u: "c\<lparr>mu := False\<rparr> = c" using assms by (cases c) simp
  have s: "Set t2 c k x d
            = Inr (c\<lparr>items := (items c)(k \<mapsto> \<lparr>Object = x, Expiration = expiry t2 c d\<rparr>)\<rparr>)"
    using assms by (cases c) (simp add: Set_def run expiry_def)
  show ?thesis
    using assms s u by (simp add: Replace_def run get_found get_locked set_c_unlock)
qed

theorem Replace_KeyNotFound_witness:
  "Replace 30 31 demo ''num'' (IntObj 1) 5
       = Inr (None, demo\<lparr>items := (items demo)(''num'' \<mapsto> \<lparr>Object = IntObj 1, Expiration = 36\<rparr>)\<rparr>)
   \<and> Replace 30 31 demo ''foo'' (StringObj ''change'') NoExpiration
       = Inr (None, demo\<lparr>items := (items demo)(''foo'' \<mapsto> \<lparr>Object = StringObj ''change'', Expiration = 0\<rparr>)\<rparr>)
   \<and> Replace 30 31 demo ''old'' (IntObj 1) 5 = Inr (Some (KeyNotFound ''old''), demo)
   \<and> Replace 30 31 demo ''new'' (IntObj 1) 5 = Inr (Some (KeyNotFound ''new''), demo)"
proof -
  note t = Replace_KeyNotFound [OF demo_facts(1), of _ 30 31]
  have e5: "expiry 31 demo 5 = 36" and en: "expiry 31 demo NoExpiration = 0"
    using sless_numerals
    by (simp_all add: expiry_def DefaultExpiration_def NoExpiration_def word_sless_alt)
  have "Replace 30 31 demo ''num'' (IntObj 1) 5
       = Inr (None, demo\<lparr>items := (items demo)(''num'' \<mapsto> \<lparr>Object = IntObj 1, Expiration = 36\<rparr>)\<rparr>)"
    using t [of "''num''" "IntObj 1" 5] demo_facts sless_numerals e5 by simp
  moreover have "Replace 30 31 demo ''foo'' (StringObj ''change'') NoExpiration
       = Inr (None, demo\<lparr>items := (items demo)(''foo'' \<mapsto> \<lparr>Object = StringObj ''change'', Expiration = 0\<rparr>)\<rparr>)"
    using t [of "''foo''" "StringObj ''change''" NoExpiration] demo_facts sless_numerals en by simp
  moreover have "Replace 30 31 demo ''old'' (IntObj 1) 5 = Inr (Some (KeyNotFound ''old''), demo)"
    using t [of "''old''" "IntObj 1" 5] demo_facts sless_numerals by simp
  moreover have "Replace 30 31 demo ''new'' (IntObj 1) 5 = Inr (Some (KeyNotFound ''new''), demo)"
    using t [of "''new''" "IntObj 1" 5] demo_facts sless_numerals by simp
  ultimately show ?thesis by simp
qed

text \<open>
  C5.  \<open>Increment\<close> returns the not-found error when the key is absent or its
  entry is \<open>Expired\<close>, and the unsupported-type error when the live entry does
  not hold an \<open>int\<close>; in both cases the cache is unchanged.  On a live
  \<open>int\<close> entry it stores value \<open>+ n\<close> (\<open>int\<close> addition, the sum of the
  two numbers whenever that sum fits 64 bits) and keeps the expiration.
\<close>

theorem Increment_cases:
  assumes "\<not> mu c"
  shows "(items c k = None \<or> (\<exists>v. items c k = Some v \<and> Expired now v)
            \<longrightarrow> Increment now c k n = Inr (Some NotFoundOrExpired, c))
       \<and> (\<forall>v. items c k = Some v \<and> \<not> Expired now v \<and> (\<forall>i. Object v \<noteq> IntObj i)
            \<longrightarrow> Increment now c k n = Inr (Some UnsupportedType, c))
       \<and> (\<forall>v i. items c k = Some v \<and> \<not> Expired now v \<and> Object v = IntObj i
            \<longrightarrow> Increment now c k n
                  = Inr (None, c\<lparr>items := (items c)(k \<mapsto> \<lparr>Object = IntObj (i + n), Expiration = Expiration v\<rparr>)\<rparr>)
                \<and> (- (2 ^ 63) \<le> sint i + sint n \<and> sint i + sint n < 2 ^ 63
                     \<longrightarrow> sint (i + n) = sint i + sint n))"
proof -
  have u: "c\<lparr>mu := False\<rparr> = c" using assms by (cases c) simp
  have a: "Increment now c k n = Inr (Some NotFoundOrExpired, c)"
    if "items c k = None \<or> (\<exists>v. items c k = Some v \<and> Expired now v)"
    using that assms u by (auto simp add: Increment_def run)
  have b: "Increment now c k n = Inr (Some UnsupportedType, c)"
    if "items c k = Some v" "\<not> Expired now v" "\<forall>i. Object v \<noteq> IntObj i" for v
    using that assms u by (cases "Object v") (simp_all add: Increment_def run)
  have c: "Increment now c k n
         = Inr (None, c\<lparr>items := (items c)(k \<mapsto> \<lparr>Object = IntObj (i + n), Expiration = Expiration v\<rparr>)\<rparr>)"
    if "items c k = Some v" "\<not> Expired now v" "Object v = IntObj i" for v i
    using that assms by (cases c, cases v) (simp add: Increment_def run)
  show ?thesis using a b c sint_add_no_overflow by blast
qed

theorem Increment_cases_witness:
  "Increment 30 demo ''num'' 1
       = Inr (None, demo\<lparr>items := (items demo)(''num'' \<mapsto> \<lparr>Object = IntObj 11, Expiration = 50\<rparr>)\<rparr>)
   \<and> Increment 30 demo ''foo'' 1 = Inr (Some UnsupportedType, demo)
   \<and> Increment 30 demo ''old'' 1 = Inr (Some NotFoundOrExpired, demo)
   \<and> Increment 30 demo ''new'' 1 = Inr (Some NotFoundOrExpired, demo)"
proof -
  note t = Increment_cases [OF demo_facts(1), of _ 30 1]
  have "Increment 30 demo ''num'' 1
       = Inr (None, demo\<lparr>items := (items demo)(''num'' \<mapsto> \<lparr>Object = IntObj 11, Expiration = 50\<rparr>)\<rparr>)"
    using t [of "''num''"] demo_facts sless_numerals by (simp add: Expired_def)
  moreover have "Increment 30 demo ''foo'' 1 = Inr (Some UnsupportedType, demo)"
    using t [of "''foo''"] demo_facts sless_numerals by (simp add: Expired_def)
  moreover have "Increment 30 demo ''old'' 1 = Inr (Some NotFoundOrExpired, demo)"
    using t [of "''old''"] demo_facts sless_numerals by (simp add: Expired_def)
  moreover have "Increment 30 demo ''new'' 1 = Inr (Some NotFoundOrExpired, demo)"
    using t [of "''new''"] demo_facts sless_numerals by (simp add: Expired_def)
  ultimately show ?thesis by simp
qed

section \<open>Get and entries without expiration\<close>

text \<open>
  C1 asks that an entry stored with \<open>NoExpiration\<close> is found by \<open>Get\<close> at
  every later time.  \<open>Set\<close> stores expiration 0 for it, and \<open>Get\<close> compares
  the expiration with the clock without the test for 0 that \<open>get\<close>,
  \<open>Expired\<close> and \<open>DeleteExpired\<close> make.  On a cache from \<open>New\<close>, the
  entry stored at time 1000 is reported missing by \<open>Get\<close> at time 1000, while
  \<open>get\<close> finds it.
\<close>

theorem Get_NoExpiration_not_found:
  "Set 1000 (fst (New 0 0 ())) ''k'' (StringObj ''v'') NoExpiration
     = Inr ((fst (New 0 0 ()))\<lparr>items := [''k'' \<mapsto> \<lparr>Object = StringObj ''v'', Expiration = 0\<rparr>]\<rparr>)
   \<and> Get 1000 ((fst (New 0 0 ()))\<lparr>items := [''k'' \<mapsto> \<lparr>Object = StringObj ''v'', Expiration = 0\<rparr>]\<rparr>) ''k''
     = Inr ((NilObj, False),
            (fst (New 0 0 ()))\<lparr>items := [''k'' \<mapsto> \<lparr>Object = StringObj ''v'', Expiration = 0\<rparr>]\<rparr>)
   \<and> get 1000 ((fst (New 0 0 ()))\<lparr>items := [''k'' \<mapsto> \<lparr>Object = StringObj ''v'', Expiration = 0\<rparr>]\<rparr>) ''k''
     = (StringObj ''v'', True)"
  by (simp add: Set_def Get_def get_def expiry_def New_def newCacheWithJanitor_def newCache_def
      NoExpiration_def DefaultExpiration_def run word_sless_alt)

text \<open>The same at every positive clock reading.\<close>

lemma Get_never_expiring:
  assumes "\<not> mu c" and "items c k = Some item" and "Expiration item = 0" and "0 <s now"
  shows "Get now c k = Inr ((NilObj, False), c)"
  using assms by (cases c) (simp add: Get_def run)

section \<open>DeleteExpired\<close>

lemma sweep_result:
  "distinct ks \<Longrightarrow>
   sweep t ks c ev =
     (c\<lparr>items := (\<lambda>k. if k \<in> set ks then survivors t (items c) k else items c k)\<rparr>,
      ev @ (if onEvicted c = None then [] else map to_kv (evictions t (items c) ks)))"
proof (induction ks arbitrary: c ev)
  case Nil
  then show ?case by (simp add: evictions_def)
next
  case (Cons k ks)
  have d: "distinct ks" and nk: "k \<notin> set ks" using Cons.prems by simp_all
  show ?case
  proof (cases "items c k")
    case None
    have "(\<lambda>k'. if k' \<in> set (k # ks) then survivors t (items c) k' else items c k')
        = (\<lambda>k'. if k' \<in> set ks then survivors t (items c) k' else items c k')"
      using None by (auto simp add: fun_eq_iff survivors_def)
    then show ?thesis using None Cons.IH [OF d, of c ev]
      by (simp add: evictions_def)
  next
    case (Some v)
    show ?thesis
    proof (cases "stale t v")
      case False
      have "(\<lambda>k'. if k' \<in> set (k # ks) then survivors t (items c) k' else items c k')
          = (\<lambda>k'. if k' \<in> set ks then survivors t (items c) k' else items c k')"
        using Some False by (auto simp add: fun_eq_iff survivors_def)
      moreover have "sweep t (k # ks) c ev = sweep t ks c ev"
        using Some False by (simp add: stale_def [symmetric])
      moreover have "evictions t (items c) (k # ks) = evictions t (items c) ks"
        using Some False by (simp add: evictions_def)
      ultimately show ?thesis using Cons.IH [OF d, of c ev] by simp
    next
      case True
      let ?c1 = "c\<lparr>items := (items c)(k := None)\<rparr>"
      have same: "evictions t (items ?c1) ks = evictions t (items c) ks"
        using nk unfolding evictions_def
        by (intro arg_cong [where f = concat] map_cong) auto
      have fn: "(\<lambda>k'. if k' \<in> set ks then survivors t (items ?c1) k' else items ?c1 k')
          = (\<lambda>k'. if k' \<in> set (k # ks) then survivors t (items c) k' else items c k')"
        using Some True by (auto simp add: fun_eq_iff survivors_def)
      have rec: "c\<lparr>items := (\<lambda>k'. if k' \<in> set ks then survivors t (items ?c1) k' else items ?c1 k')\<rparr>
          = c\<lparr>items := (\<lambda>k'. if k' \<in> set (k # ks) then survivors t (items c) k' else items c k')\<rparr>"
        using fn by simp
      have hd: "evictions t (items c) (k # ks) = (k, Object v) # evictions t (items c) ks"
        using Some True by (simp add: evictions_def)
      have st: "0 <s Expiration v \<and> Expiration v <s t" using True by (simp add: stale_def)
      show ?thesis
      proof (cases "onEvicted c")
        case None
        have del: "delete c k = (NilObj, False, ?c1)" using None by (simp add: delete_def)
        show ?thesis
          using Some st del None Cons.IH [OF d, of ?c1 ev] rec by simp
      next
        case (Some f)
        have del: "delete c k = (Object v, True, ?c1)"
          using Some \<open>items c k = Some v\<close> by (simp add: delete_def)
        show ?thesis
          using \<open>items c k = Some v\<close> st del Some
            Cons.IH [OF d, of ?c1 "ev @ [\<lparr>key = k, val = Object v\<rparr>]"] rec same hd
          by (simp add: to_kv_def)
      qed
    qed
  qed
qed

lemma notify_result:
  "onEvicted c = Some f \<Longrightarrow>
   notify (map to_kv evs) c
     = Inr (c\<lparr>world := fold (\<lambda>(k, v). f k v (items c) (mu c)) evs (world c)\<rparr>)"
proof (induction evs arbitrary: c)
  case Nil
  then show ?case by (cases c) simp
next
  case (Cons e evs)
  let ?c1 = "c\<lparr>world := f (fst e) (snd e) (items c) (mu c) (world c)\<rparr>"
  have "onEvicted ?c1 = Some f" using Cons.prems by simp
  from Cons.IH [OF this] Cons.prems show ?case
    by (simp add: call_onEvicted_def andThen_Inr to_kv_def case_prod_unfold)
qed

lemma survivors_dom:
  "set ks = dom m \<Longrightarrow> (\<lambda>k. if k \<in> set ks then survivors t m k else m k) = survivors t m"
  by (auto simp add: fun_eq_iff survivors_def split: option.splits)

lemma evictions_keys:
  "map fst (evictions t m ks) = filter (\<lambda>k. \<exists>v. m k = Some v \<and> stale t v) ks"
  by (induction ks) (auto simp add: evictions_def split: option.splits)

lemma evictions_none:
  "(\<forall>k v. m k = Some v \<longrightarrow> \<not> stale t v) \<Longrightarrow> evictions t m ks = []"
  by (induction ks) (auto simp add: evictions_def split: option.splits)

lemma survivors_none:
  "(\<forall>k v. m k = Some v \<longrightarrow> \<not> stale t v) \<Longrightarrow> survivors t m = m"
  by (auto simp add: fun_eq_iff survivors_def split: option.splits)

text \<open>
  C7.  \<open>DeleteExpired\<close> reads the clock once.  Run over the keys of the map in
  any order, it leaves the survivors of that reading (every entry that is
  not stale, the never-expiring ones among them, and nothing else); with a
  callback configured, it then applies the callback to each stale key and its
  value, once per key, after the removals: at every one of these calls the
  map is already the map of the survivors and the mutex is released.  When no
  entry is stale, the cache, its \<open>ItemCount\<close> and the state outside are
  unchanged.
\<close>

theorem DeleteExpired_sweep:
  assumes "\<not> mu c" and "distinct ks" and "set ks = dom (items c)"
  shows "DeleteExpired timeNow ks c =
           Inr (c\<lparr>items := survivors timeNow (items c),
                  world := (case onEvicted c of
                              None \<Rightarrow> world c
                            | Some f \<Rightarrow>
                                fold (\<lambda>(k, v). f k v (survivors timeNow (items c)) False)
                                  (evictions timeNow (items c) ks) (world c))\<rparr>)
       \<and> distinct (map fst (evictions timeNow (items c) ks))
       \<and> set (evictions timeNow (items c) ks)
           = {(k, x). \<exists>v. items c k = Some v \<and> stale timeNow v \<and> x = Object v}
       \<and> ((\<forall>k v. items c k = Some v \<longrightarrow> \<not> stale timeNow v) \<longrightarrow>
            DeleteExpired timeNow ks c = Inr c
            \<and> ItemCount c = Inr (card (dom (items c)), c))"
proof -
  let ?c1 = "c\<lparr>mu := True\<rparr>"
  have u: "c\<lparr>mu := False\<rparr> = c" using assms(1) by (cases c) simp
  have i: "items ?c1 = items c" and o: "onEvicted ?c1 = onEvicted c" by simp_all
  have sw: "sweep timeNow ks ?c1 [] =
      (?c1\<lparr>items := survivors timeNow (items c)\<rparr>,
       if onEvicted c = None then [] else map to_kv (evictions timeNow (items c) ks))"
  proof -
    have "sweep timeNow ks ?c1 [] =
      (?c1\<lparr>items := (\<lambda>k. if k \<in> set ks then survivors timeNow (items c) k else items c k)\<rparr>,
       if onEvicted c = None then [] else map to_kv (evictions timeNow (items c) ks))"
      using sweep_result [OF assms(2), of timeNow ?c1 "[]"] unfolding i by simp
    then show ?thesis by (simp only: survivors_dom [OF assms(3)])
  qed
  have main: "DeleteExpired timeNow ks c =
           Inr (c\<lparr>items := survivors timeNow (items c),
                  world := (case onEvicted c of
                              None \<Rightarrow> world c
                            | Some f \<Rightarrow>
                                fold (\<lambda>(k, v). f k v (survivors timeNow (items c)) False)
                                  (evictions timeNow (items c) ks) (world c))\<rparr>)"
  proof (cases "onEvicted c")
    case None
    then show ?thesis using assms(1) sw
      by (cases c) (simp add: DeleteExpired_def run)
  next
    case (Some f)
    let ?c3 = "c\<lparr>items := survivors timeNow (items c)\<rparr>"
    have cb: "onEvicted ?c3 = Some f" using Some by simp
    have "DeleteExpired timeNow ks c = notify (map to_kv (evictions timeNow (items c) ks)) ?c3"
      using assms(1) sw Some u by (cases c) (simp add: DeleteExpired_def run)
    then show ?thesis using notify_result [OF cb] Some assms(1) by simp
  qed
  have dk: "distinct (map fst (evictions timeNow (items c) ks))"
    using assms(2) by (simp add: evictions_keys)
  have st: "set (evictions timeNow (items c) ks)
           = {(k, x). \<exists>v. items c k = Some v \<and> stale timeNow v \<and> x = Object v}"
    using assms(3) by (auto simp add: evictions_def split: option.splits if_splits)
  have idle: "DeleteExpired timeNow ks c = Inr c \<and> ItemCount c = Inr (card (dom (items c)), c)"
    if h: "\<forall>k v. items c k = Some v \<longrightarrow> \<not> stale timeNow v"
  proof -
    have "DeleteExpired timeNow ks c = Inr c"
      using main evictions_none [OF h] survivors_none [OF h]
      by (cases c) (simp split: option.splits)
    moreover have "ItemCount c = Inr (card (dom (items c)), c)"
      using assms(1) u by (simp add: ItemCount_def run)
    ultimately show ?thesis by simp
  qed
  show ?thesis using main dk st idle by blast
qed

theorem DeleteExpired_sweep_witness:
  "DeleteExpired 100 [''old'', ''foo'', ''num''] demo
     = Inr (demo\<lparr>items := [''foo'' \<mapsto> \<lparr>Object = StringObj ''bar'', Expiration = 0\<rparr>],
                 world := [(''old'', BoolObj True, [''foo''], False),
                           (''num'', IntObj 10, [''foo''], False)]\<rparr>)
   \<and> DeleteExpired 30 [''num'', ''foo'', ''old''] demo
     = Inr (demo\<lparr>items := [''foo'' \<mapsto> \<lparr>Object = StringObj ''bar'', Expiration = 0\<rparr>,
                           ''num'' \<mapsto> \<lparr>Object = IntObj 10, Expiration = 50\<rparr>],
                 world := [(''old'', BoolObj True, [''foo'', ''num''], False)]\<rparr>)
   \<and> DeleteExpired 10 [''num'', ''foo'', ''old''] demo = Inr demo
   \<and> ItemCount demo = Inr (3, demo)"
proof -
  have free: "\<not> mu demo" by (simp add: demo_def)
  have d1: "distinct [''old'', ''foo'', ''num'']" and d2: "distinct [''num'', ''foo'', ''old'']"
    by simp_all
  have s1: "set [''old'', ''foo'', ''num''] = dom (items demo)"
    and s2: "set [''num'', ''foo'', ''old''] = dom (items demo)"
    by (auto simp add: demo_def)
  have cb: "onEvicted demo = Some record_call" and w: "world demo = []"
    by (simp_all add: demo_def)
  have m100: "survivors 100 (items demo) = [''foo'' \<mapsto> \<lparr>Object = StringObj ''bar'', Expiration = 0\<rparr>]"
    by (auto simp add: fun_eq_iff survivors_def stale_def demo_def word_sless_alt)
  have m30: "survivors 30 (items demo)
      = [''foo'' \<mapsto> \<lparr>Object = StringObj ''bar'', Expiration = 0\<rparr>,
         ''num'' \<mapsto> \<lparr>Object = IntObj 10, Expiration = 50\<rparr>]"
    by (auto simp add: fun_eq_iff survivors_def stale_def demo_def word_sless_alt)
  have e100: "evictions 100 (items demo) [''old'', ''foo'', ''num'']
      = [(''old'', BoolObj True), (''num'', IntObj 10)]"
    by (simp add: evictions_def stale_def demo_def word_sless_alt)
  have e30: "evictions 30 (items demo) [''num'', ''foo'', ''old''] = [(''old'', BoolObj True)]"
    by (simp add: evictions_def stale_def demo_def word_sless_alt)
  have fresh: "\<forall>k v. items demo k = Some v \<longrightarrow> \<not> stale 10 v"
    by (auto simp add: stale_def demo_def word_sless_alt split: if_splits)
  have n: "card (dom (items demo)) = 3"
    by (simp add: s1 [symmetric])
  have "DeleteExpired 100 [''old'', ''foo'', ''num''] demo
     = Inr (demo\<lparr>items := [''foo'' \<mapsto> \<lparr>Object = StringObj ''bar'', Expiration = 0\<rparr>],
                 world := [(''old'', BoolObj True, [''foo''], False),
                           (''num'', IntObj 10, [''foo''], False)]\<rparr>)"
    using DeleteExpired_sweep [OF free d1 s1, of 100] cb w m100 e100
    by (simp add: record_call_def)
  moreover have "DeleteExpired 30 [''num'', ''foo'', ''old''] demo
     = Inr (demo\<lparr>items := [''foo'' \<mapsto> \<lparr>Object = StringObj ''bar'', Expiration = 0\<rparr>,
                           ''num'' \<mapsto> \<lparr>Object = IntObj 10, Expiration = 50\<rparr>],
                 world := [(''old'', BoolObj True, [''foo'', ''num''], False)]\<rparr>)"
    using DeleteExpired_sweep [OF free d2 s2, of 30] cb w m30 e30
    by (simp add: record_call_def)
  moreover have "DeleteExpired 10 [''num'', ''foo'', ''old''] demo = Inr demo
      \<and> ItemCount demo = Inr (3, demo)"
  proof -
    have "DeleteExpired 10 [''num'', ''foo'', ''old''] demo = Inr demo
      \<and> ItemCount demo = Inr (card (dom (items demo)), demo)"
      using DeleteExpired_sweep [OF free d2 s2, of 10] fresh by blast
    then show ?thesis by (simp only: n)
  qed
  ultimately show ?thesis by simp
qed

end
